theory Spec2Isabelle
  imports Complex_Main "HOL-Library.Monad_Syntax"
begin

section \<open>The flow store (apps/frontend/src/stores/flowStore.ts)\<close>

text \<open>
  The zustand store \<open>useFlowStore\<close> holds one state object; every action calls
  \<open>set\<close> with a partial object that is merged into the state, so the fields an action
  does not name keep their value. The workflow and node payloads are opaque to the store
  and are type parameters here.
\<close>

datatype RightPanel = PanelNode | PanelSimulation | PanelTesting

record ('w, 'n) FlowStore =
  isDesignMode :: bool
  currentWorkflow :: "'w option"
  selectedNode :: "'n option"
  isDesigning :: bool
  designGoal :: string
  isExecuting :: bool
  executionId :: "string option"
  sidebarOpen :: bool
  nodePanelOpen :: bool
  rightPanel :: RightPanel

definition initialFlowStore :: "('w, 'n) FlowStore" where
  "initialFlowStore =
     \<lparr> isDesignMode = True, currentWorkflow = None, selectedNode = None,
       isDesigning = False, designGoal = [], isExecuting = False, executionId = None,
       sidebarOpen = True, nodePanelOpen = False, rightPanel = PanelNode \<rparr>"

definition toggleDesignMode :: "('w, 'n) FlowStore \<Rightarrow> ('w, 'n) FlowStore" where
  "toggleDesignMode state = state\<lparr>isDesignMode := \<not> isDesignMode state\<rparr>"

definition setCurrentWorkflow :: "'w option \<Rightarrow> ('w, 'n) FlowStore \<Rightarrow> ('w, 'n) FlowStore" where
  "setCurrentWorkflow workflow state = state\<lparr>currentWorkflow := workflow\<rparr>"

definition setSelectedNode :: "'n option \<Rightarrow> ('w, 'n) FlowStore \<Rightarrow> ('w, 'n) FlowStore" where
  "setSelectedNode node state = state\<lparr>selectedNode := node\<rparr>"

definition setDesignGoal :: "string \<Rightarrow> ('w, 'n) FlowStore \<Rightarrow> ('w, 'n) FlowStore" where
  "setDesignGoal goal state = state\<lparr>designGoal := goal\<rparr>"

definition startAIDesign :: "('w, 'n) FlowStore \<Rightarrow> ('w, 'n) FlowStore" where
  "startAIDesign state = state\<lparr>isDesigning := True\<rparr>"

definition stopAIDesign :: "('w, 'n) FlowStore \<Rightarrow> ('w, 'n) FlowStore" where
  "stopAIDesign state = state\<lparr>isDesigning := False\<rparr>"

definition startExecution :: "string \<Rightarrow> ('w, 'n) FlowStore \<Rightarrow> ('w, 'n) FlowStore" where
  "startExecution eid state = state\<lparr>isExecuting := True, executionId := Some eid\<rparr>"

definition stopExecution :: "('w, 'n) FlowStore \<Rightarrow> ('w, 'n) FlowStore" where
  "stopExecution state = state\<lparr>isExecuting := False, executionId := None\<rparr>"

definition toggleSidebar :: "('w, 'n) FlowStore \<Rightarrow> ('w, 'n) FlowStore" where
  "toggleSidebar state = state\<lparr>sidebarOpen := \<not> sidebarOpen state\<rparr>"

definition toggleNodePanel :: "('w, 'n) FlowStore \<Rightarrow> ('w, 'n) FlowStore" where
  "toggleNodePanel state = state\<lparr>nodePanelOpen := \<not> nodePanelOpen state\<rparr>"

definition setRightPanel :: "RightPanel \<Rightarrow> ('w, 'n) FlowStore \<Rightarrow> ('w, 'n) FlowStore" where
  "setRightPanel panel state = state\<lparr>rightPanel := panel\<rparr>"

text \<open>
  The eleven actions of the store as one datatype, and the store's transition function:
  a call of an action with its arguments.
\<close>

datatype ('w, 'n) FlowAction =
    ToggleDesignMode
  | SetCurrentWorkflow "'w option"
  | SetSelectedNode "'n option"
  | SetDesignGoal string
  | StartAIDesign
  | StopAIDesign
  | StartExecution string
  | StopExecution
  | ToggleSidebar
  | ToggleNodePanel
  | SetRightPanel RightPanel

fun dispatch :: "('w, 'n) FlowAction \<Rightarrow> ('w, 'n) FlowStore \<Rightarrow> ('w, 'n) FlowStore" where
  "dispatch ToggleDesignMode = toggleDesignMode"
| "dispatch (SetCurrentWorkflow w) = setCurrentWorkflow w"
| "dispatch (SetSelectedNode n) = setSelectedNode n"
| "dispatch (SetDesignGoal g) = setDesignGoal g"
| "dispatch StartAIDesign = startAIDesign"
| "dispatch StopAIDesign = stopAIDesign"
| "dispatch (StartExecution eid) = startExecution eid"
| "dispatch StopExecution = stopExecution"
| "dispatch ToggleSidebar = toggleSidebar"
| "dispatch ToggleNodePanel = toggleNodePanel"
| "dispatch (SetRightPanel p) = setRightPanel p"

fun isExecutionAction :: "('w, 'n) FlowAction \<Rightarrow> bool" where
  "isExecutionAction (StartExecution eid) = True"
| "isExecutionAction StopExecution = True"
| "isExecutionAction a = False"

text \<open>The store after a sequence of actions, the first of the list first.\<close>

definition runActions :: "('w, 'n) FlowAction list \<Rightarrow> ('w, 'n) FlowStore \<Rightarrow> ('w, 'n) FlowStore" where
  "runActions as state = foldl (\<lambda>s a. dispatch a s) state as"

definition execInv :: "('w, 'n) FlowStore \<Rightarrow> bool" where
  "execInv state = (isExecuting state = (executionId state \<noteq> None))"

section \<open>Test validation (the TestSuite component's validateTestResult)\<close>

text \<open>
  JavaScript values as the operators \<open>===\<close> and \<open>!==\<close> see them: a primitive is its
  value, an object or an array is its identity (\<open>JRef\<close>, a reference), and NaN is
  equal to nothing. \<open>JNum\<close> stands for a number other than NaN by its numeric value.
\<close>

datatype jsval = JUndefined | JNull | JBool bool | JNum int | JNaN | JStr string | JRef nat

definition strictEq :: "jsval \<Rightarrow> jsval \<Rightarrow> bool" where
  "strictEq a b = (a = b \<and> a \<noteq> JNaN)"

datatype js_error = TypeError

text \<open>
  \<open>TestCase\<close> as the interface declares it. \<open>expected_outputs\<close> is the object as
  \<open>Object.entries\<close> lists it: its own keys with their values, in order.
\<close>

record TestCase =
  tc_id :: string
  tc_name :: string
  tc_description :: string
  initial_variables :: "(string \<times> jsval) list"
  expected_outputs :: "(string \<times> jsval) list"
  expected_status :: string
  timeout_seconds :: int
  enabled :: bool

text \<open>
  The parsed response (\<open>simulationResult: any\<close>): its \<open>status\<close>, and its
  \<open>variables\<close>, an object read by key or absent (\<open>undefined\<close>), in which case
  reading a key of it throws a TypeError.
\<close>

record SimulationResponse =
  sr_status :: jsval
  sr_variables :: "(string \<rightharpoonup> jsval) option"

definition getProp :: "(string \<rightharpoonup> jsval) \<Rightarrow> string \<Rightarrow> jsval" where
  "getProp obj key = (case obj key of None \<Rightarrow> JUndefined | Some v \<Rightarrow> v)"

text \<open>The loop over the entries of \<open>expected_outputs\<close>.\<close>

fun checkOutputs :: "(string \<rightharpoonup> jsval) option \<Rightarrow> (string \<times> jsval) list \<Rightarrow> js_error + bool" where
  "checkOutputs vars [] = Inr True"
| "checkOutputs vars ((key, expectedValue) # rest) =
     (case vars of
        None \<Rightarrow> Inl TypeError
      | Some obj \<Rightarrow>
          (let actualValue = getProp obj key in
           if \<not> strictEq actualValue expectedValue then Inr False
           else checkOutputs vars rest))"

definition validateTestResult :: "TestCase \<Rightarrow> SimulationResponse \<Rightarrow> js_error + bool" where
  "validateTestResult testCase simulationResult =
     (if \<not> strictEq (JStr (expected_status testCase)) (sr_status simulationResult) then Inr False
      else checkOutputs (sr_variables simulationResult) (expected_outputs testCase))"

section \<open>SDK types and schemas (packages/sdk/src/types/index.ts)\<close>

text \<open>The union type \<open>RunStatus\<close>, and the string each member is written as.\<close>

datatype RunStatus = Pending | Running | Completed | Failed | Cancelled

fun RunStatus_literal :: "RunStatus \<Rightarrow> string" where
  "RunStatus_literal Pending = ''pending''"
| "RunStatus_literal Running = ''running''"
| "RunStatus_literal Completed = ''completed''"
| "RunStatus_literal Failed = ''failed''"
| "RunStatus_literal Cancelled = ''cancelled''"

text \<open>
  The enum of the status field of \<open>WorkflowRunSchema\<close>,
  \<open>z.enum(['pending', 'running', 'completed', 'failed', 'cancelled'])\<close>: a string is
  accepted when it is one of the options.
\<close>

definition parseRunStatus :: "string \<Rightarrow> RunStatus option" where
  "parseRunStatus s =
     (if s = ''pending'' then Some Pending
      else if s = ''running'' then Some Running
      else if s = ''completed'' then Some Completed
      else if s = ''failed'' then Some Failed
      else if s = ''cancelled'' then Some Cancelled
      else None)"

text \<open>JSON data as a response carries it. Numbers are not read by the schemas modelled here.\<close>

datatype json =
    JsonNull
  | JsonBool bool
  | JsonNumber int
  | JsonString string
  | JsonArray "json list"
  | JsonObject "(string \<times> json) list"

record WorkflowRun =
  run_id :: string
  workflow_id :: string
  version :: string
  status :: RunStatus
  input_data :: "(string \<times> json) list"
  output_data :: "(string \<times> json) list option"
  started_at :: string
  completed_at :: "string option"
  error_message :: "string option"

text \<open>
  The zod parsers the schema is built from, on the value of a key (\<open>None\<close> when the key
  is absent, which zod reads as \<open>undefined\<close>): \<open>z.string()\<close>, \<open>z.record(z.any())\<close>,
  the status enum, and \<open>.optional()\<close>, which accepts an absent key.
\<close>

fun zString :: "json option \<Rightarrow> string option" where
  "zString (Some (JsonString s)) = Some s"
| "zString v = None"

fun zRecordAny :: "json option \<Rightarrow> (string \<times> json) list option" where
  "zRecordAny (Some (JsonObject kvs)) = Some kvs"
| "zRecordAny v = None"

fun zRunStatus :: "json option \<Rightarrow> RunStatus option" where
  "zRunStatus (Some (JsonString s)) = parseRunStatus s"
| "zRunStatus v = None"

fun zOptional :: "(json option \<Rightarrow> 'a option) \<Rightarrow> json option \<Rightarrow> 'a option option" where
  "zOptional p None = Some None"
| "zOptional p (Some v) = map_option Some (p (Some v))"

text \<open>\<open>WorkflowRunSchema.parse\<close>: \<open>None\<close> is a validation error.\<close>

fun WorkflowRunSchema :: "json \<Rightarrow> WorkflowRun option" where
  "WorkflowRunSchema (JsonObject kvs) =
     do {
       i \<leftarrow> zString (map_of kvs ''id'');
       w \<leftarrow> zString (map_of kvs ''workflow_id'');
       v \<leftarrow> zString (map_of kvs ''version'');
       st \<leftarrow> zRunStatus (map_of kvs ''status'');
       inp \<leftarrow> zRecordAny (map_of kvs ''input_data'');
       out \<leftarrow> zOptional zRecordAny (map_of kvs ''output_data'');
       sa \<leftarrow> zString (map_of kvs ''started_at'');
       ca \<leftarrow> zOptional zString (map_of kvs ''completed_at'');
       em \<leftarrow> zOptional zString (map_of kvs ''error_message'');
       Some \<lparr> run_id = i, workflow_id = w, version = v, status = st, input_data = inp,
              output_data = out, started_at = sa, completed_at = ca, error_message = em \<rparr>
     }"
| "WorkflowRunSchema j = None"

text \<open>
  Following the spec's words (section 3, Run): the eight run statuses it lists, to be
  compared with what \<open>RunStatus\<close> admits.
\<close>

definition spec_run_statuses :: "string list" where
  "spec_run_statuses =
     [''pending'', ''running'', ''waiting'', ''completed'', ''failed'', ''cancelled'',
      ''compensating'', ''dead_lettered'']"

text \<open>The union type \<open>StepType\<close> of the SDK, as the strings of its members.\<close>

definition StepType_values :: "string list" where
  "StepType_values =
     [''trigger'', ''action'', ''branch'', ''loop'', ''parallel'', ''approval'', ''delay'',
      ''http'', ''datamap'']"

text \<open>
  The declared shape of a record type: each field's name, its type and whether it is
  optional (\<open>?\<close>), in declaration order.
\<close>

datatype FieldType = TString | TNumber | TRecordAny | TStringArray | TStepArray | TRunStatus

type_synonym FieldDecl = "string \<times> FieldType \<times> bool"

definition WorkflowRun_fields :: "FieldDecl list" where
  "WorkflowRun_fields =
     [(''id'', TString, False), (''workflow_id'', TString, False), (''version'', TString, False),
      (''status'', TRunStatus, False), (''input_data'', TRecordAny, False),
      (''output_data'', TRecordAny, True), (''started_at'', TString, False),
      (''completed_at'', TString, True), (''error_message'', TString, True)]"

section \<open>Simulation records (the SimulationPanel component)\<close>

definition SimulationStep_fields :: "FieldDecl list" where
  "SimulationStep_fields =
     [(''step_id'', TString, False), (''step_type'', TString, False), (''name'', TString, False),
      (''status'', TString, False), (''start_time'', TString, True), (''end_time'', TString, True),
      (''duration_ms'', TNumber, True), (''inputs'', TRecordAny, False),
      (''outputs'', TRecordAny, False), (''error'', TString, True),
      (''mock_data_used'', TRecordAny, False)]"

definition SimulationResult_fields :: "FieldDecl list" where
  "SimulationResult_fields =
     [(''simulation_id'', TString, False), (''workflow_id'', TString, False),
      (''workflow_name'', TString, False), (''status'', TString, False),
      (''start_time'', TString, False), (''end_time'', TString, True),
      (''duration_ms'', TNumber, True), (''steps'', TStepArray, False),
      (''variables'', TRecordAny, False), (''mock_data_config'', TRecordAny, False),
      (''validation_errors'', TStringArray, False), (''execution_path'', TStringArray, False),
      (''performance_metrics'', TRecordAny, False)]"

definition fieldNames :: "FieldDecl list \<Rightarrow> string list" where
  "fieldNames fs = map fst fs"

section \<open>Node kinds of the flow builder (nodes/nodeTypes.ts, nodes/CustomNode.tsx)\<close>

text \<open>
  \<open>nodeTypes\<close> maps every registered kind to the one component \<open>CustomNode\<close>; it is
  modelled by its keys, in declaration order. \<open>nodeCategories\<close> is the palette: per
  category, the entries (type, label, icon, color).
\<close>

definition nodeTypes :: "string list" where
  "nodeTypes = [''connector'', ''condition'', ''transform'', ''webhook'', ''delay'', ''start'', ''end'']"

definition nodeCategories :: "(string \<times> (string \<times> string \<times> string \<times> string) list) list" where
  "nodeCategories =
     [(''triggers'', [(''start'', ''Start'', ''play'', ''green''),
                      (''webhook'', ''Webhook'', ''webhook'', ''blue'')]),
      (''actions'', [(''connector'', ''Connector'', ''link'', ''purple''),
                     (''transform'', ''Transform'', ''settings'', ''orange'')]),
      (''logic'', [(''condition'', ''Condition'', ''git-branch'', ''yellow''),
                   (''delay'', ''Delay'', ''clock'', ''gray'')]),
      (''end'', [(''end'', ''End'', ''square'', ''red'')])]"

definition paletteTypes :: "string list" where
  "paletteTypes = concat (map (\<lambda>(category, nodes). map fst nodes) nodeCategories)"

datatype Icon = Play | Webhook | Link | Settings | GitBranch | Clock | Square

definition iconMap :: "(string \<times> Icon) list" where
  "iconMap =
     [(''start'', Play), (''webhook'', Webhook), (''connector'', Link), (''transform'', Settings),
      (''condition'', GitBranch), (''delay'', Clock), (''end'', Square)]"

definition colorMap :: "(string \<times> string) list" where
  "colorMap =
     [(''start'', ''bg-green-500''), (''webhook'', ''bg-blue-500''),
      (''connector'', ''bg-purple-500''), (''transform'', ''bg-orange-500''),
      (''condition'', ''bg-yellow-500''), (''delay'', ''bg-gray-500''), (''end'', ''bg-red-500'')]"

text \<open>
  The dispatch of \<open>CustomNode\<close> on \<open>data.type\<close>: \<open>iconMap[data.type] || Settings\<close> and
  \<open>colorMap[data.type] || "bg-gray-500"\<close>, a lookup among the map's own keys with a
  default.
\<close>

definition nodeIcon :: "string \<Rightarrow> Icon" where
  "nodeIcon ty = (case map_of iconMap ty of Some icon \<Rightarrow> icon | None \<Rightarrow> Settings)"

definition nodeColorClass :: "string \<Rightarrow> string" where
  "nodeColorClass ty = (case map_of colorMap ty of Some c \<Rightarrow> c | None \<Rightarrow> ''bg-gray-500'')"

text \<open>
  Following the spec's words (section 3, Step): the nine step kinds it lists, to be compared
  with the kinds the code registers.
\<close>

definition spec_step_kinds :: "string list" where
  "spec_step_kinds =
     [''start'', ''webhook'', ''connector'', ''transform'', ''condition'', ''delay'',
      ''parallel'', ''approval'', ''end'']"

section \<open>Contracts of the execution engine\<close>

text \<open>
  The engine (Variable Store, step executors, retry policy, persistence) belongs to the
  repository's workers and orchestrator, whose code this development does not have. The
  definitions of this section are written from the spec's sections 3, 4, 6 and 7.
\<close>

text \<open>
  Modelled from the spec: the engine's error kinds, which are the taxonomy of section 7
  and the Variable Store's NotFoundError (section 4.1). \<open>ConnectorError\<close> carries its
  retryable flag, \<open>NotFoundError\<close> the name that was read.
\<close>

datatype EngineError =
    NotFoundError string
  | MappingError
  | ConnectorError bool
  | ConditionError
  | TimeoutError
  | RateLimitedError
  | CancellationError

text \<open>
  Modelled from the spec: the Variable Store of sections 3 and 4.1, a mapping from name to
  value (string, number, boolean, object, array or null) scoped to one run. It is kept as
  the list of its (name, value) entries, so that "keys unique within a run" is a property
  of the operations and not of the representation.
\<close>

type_synonym VariableStore = "(string \<times> json) list"

text \<open>
  Modelled from the spec: \<open>get(name) -> value or NotFoundError\<close> (section 4.1); a read
  of a name the store does not hold fails and returns no default.
\<close>

fun store_get :: "VariableStore \<Rightarrow> string \<Rightarrow> EngineError + json" where
  "store_get [] name = Inl (NotFoundError name)"
| "store_get ((k, v) # rest) name = (if k = name then Inr v else store_get rest name)"

text \<open>
  Modelled from the spec: \<open>set(name, value)\<close> (section 4.1), "writes are
  append-or-overwrite (no partial updates)": the entry of the name is replaced as a whole
  when there is one, and a new entry is appended otherwise.
\<close>

fun store_set :: "string \<Rightarrow> json \<Rightarrow> VariableStore \<Rightarrow> VariableStore" where
  "store_set name v [] = [(name, v)]"
| "store_set name v ((k, old) # rest) =
     (if k = name then (k, v) # rest else (k, old) # store_set name v rest)"

text \<open>Modelled from the spec: the statuses of a StepResult (section 3).\<close>

datatype StepStatus = StepPending | StepRunning | StepCompleted | StepFailed | StepSkipped

text \<open>
  Modelled from the spec: the StepResult record of section 3: step id, status, attempt
  count, inputs and outputs snapshots, error (kind and message), start and end timestamps,
  duration.
\<close>

record StepResult =
  step_id :: string
  step_status :: StepStatus
  attempt :: nat
  inputs :: VariableStore
  outputs :: VariableStore
  step_error :: "(EngineError \<times> string) option"
  start_ts :: nat
  end_ts :: "nat option"
  duration :: "nat option"

text \<open>
  Modelled from the spec: the persisted StepResults of the persistence collaborator
  (section 6), each under the id of its run, in the order they were appended.
\<close>

type_synonym ResultLog = "(string \<times> StepResult) list"

text \<open>
  Modelled from the spec: the key of section 6, "run id + step id + attempt number".
\<close>

definition resultKey :: "string \<times> StepResult \<Rightarrow> string \<times> string \<times> nat" where
  "resultKey e = (fst e, step_id (snd e), attempt (snd e))"

text \<open>
  Modelled from the spec: \<open>appendStepResult(runId, StepResult)\<close> (section 6),
  "idempotent by run id + step id + attempt number": a call whose key is already stored
  adds nothing, any other call appends the result.
\<close>

definition appendStepResult :: "string \<Rightarrow> StepResult \<Rightarrow> ResultLog \<Rightarrow> ResultLog" where
  "appendStepResult runId r results =
     (if (runId, step_id r, attempt r) \<in> set (map resultKey results) then results
      else results @ [(runId, r)])"

text \<open>
  Modelled from the spec: a branch of a condition step (section 4.3): a boolean expression
  over the store and the step its edge leads to. Expressions are total here; one that
  throws is a step failure (section 4.5) and not part of this model.
\<close>

record 's Branch =
  branch_when :: "'s \<Rightarrow> bool"
  branch_target :: string

text \<open>
  Modelled from the spec: a condition step (section 4.3): its branches in declaration
  order and the target of its "else" edge when one is declared.
\<close>

record 's ConditionStep =
  branches :: "'s Branch list"
  else_target :: "string option"

text \<open>Modelled from the spec: what a condition step does with an outgoing edge.\<close>

datatype EdgeStatus = EdgeTaken | EdgeSkipped

text \<open>
  Modelled from the spec: the result of a condition step: the step to go to next, the
  mark of every branch in declaration order, and the mark of the else edge when declared.
\<close>

record ConditionOutcome =
  next_step :: string
  branch_marks :: "EdgeStatus list"
  else_mark :: "EdgeStatus option"

text \<open>
  Modelled from the spec: "ties broken by declaration order (first matching branch
  wins)": the index of the first branch whose expression holds in the store.
\<close>

fun firstMatch :: "'s \<Rightarrow> 's Branch list \<Rightarrow> nat option" where
  "firstMatch store [] = None"
| "firstMatch store (b # bs) =
     (if branch_when b store then Some 0 else map_option Suc (firstMatch store bs))"

text \<open>
  Modelled from the spec: the marks of n branches of which the one at index \<open>taken\<close>
  (if any) is taken and every other one skipped.
\<close>

definition markBranches :: "nat option \<Rightarrow> nat \<Rightarrow> EdgeStatus list" where
  "markBranches taken n = map (\<lambda>j. if taken = Some j then EdgeTaken else EdgeSkipped) [0..<n]"

text \<open>
  Modelled from the spec: the condition executor of section 4.3: the first matching
  branch is taken, the else edge is taken when no branch matches, and "a missing else
  with no match is a ConditionError".
\<close>

definition executeCondition :: "'s \<Rightarrow> 's ConditionStep \<Rightarrow> EngineError + ConditionOutcome" where
  "executeCondition store step =
     (case firstMatch store (branches step) of
        Some i \<Rightarrow>
          Inr \<lparr> next_step = branch_target (branches step ! i),
                branch_marks = markBranches (Some i) (length (branches step)),
                else_mark = map_option (\<lambda>t. EdgeSkipped) (else_target step) \<rparr>
      | None \<Rightarrow>
          (case else_target step of
             Some t \<Rightarrow>
               Inr \<lparr> next_step = t,
                     branch_marks = markBranches None (length (branches step)),
                     else_mark = Some EdgeTaken \<rparr>
           | None \<Rightarrow> Inl ConditionError))"

text \<open>
  Modelled from the spec: the marks of all outgoing edges of a condition step, the
  branches first and the else edge last.
\<close>

definition outgoingMarks :: "ConditionOutcome \<Rightarrow> EdgeStatus list" where
  "outgoingMarks out = branch_marks out @ (case else_mark out of None \<Rightarrow> [] | Some m \<Rightarrow> [m])"

text \<open>
  Modelled from the spec: the RetryPolicy of section 3: max attempts, base delay, backoff
  multiplier, jitter flag and the error kinds considered retryable. Delays are real
  numbers of milliseconds.
\<close>

record RetryPolicy =
  max_attempts :: nat
  base_delay :: real
  multiplier :: real
  jitter :: bool
  retryable :: "EngineError list"

text \<open>
  Modelled from the spec: \<open>nextDelay(attempt, policy)\<close> of section 4.4, "Delay =
  base * multiplier^(attempt-1), optionally jittered by a uniform random factor in
  [0, delay]". The random draw is the argument \<open>u\<close>, a number of [0, 1]; the jitter
  added to the delay is \<open>u * delay\<close>.
\<close>

definition nextDelay :: "real \<Rightarrow> nat \<Rightarrow> RetryPolicy \<Rightarrow> real" where
  "nextDelay u n policy =
     (let delay = base_delay policy * multiplier policy ^ (n - 1)
      in if jitter policy then delay + u * delay else delay)"

section \<open>The flow store keeps isExecuting and executionId together\<close>

lemma execInv_initial: "execInv initialFlowStore"
  by (simp add: execInv_def initialFlowStore_def)

lemma dispatch_frame:
  "\<not> isExecutionAction a \<Longrightarrow>
     isExecuting (dispatch a s) = isExecuting s \<and> executionId (dispatch a s) = executionId s"
  by (cases a)
    (simp_all add: toggleDesignMode_def setCurrentWorkflow_def setSelectedNode_def
      setDesignGoal_def startAIDesign_def stopAIDesign_def toggleSidebar_def
      toggleNodePanel_def setRightPanel_def)

lemma dispatch_execInv: "execInv s \<Longrightarrow> execInv (dispatch a s)"
proof (cases "isExecutionAction a")
  case False
  assume "execInv s"
  with dispatch_frame [OF False] show ?thesis by (simp add: execInv_def)
next
  case True
  then show ?thesis
    by (cases a) (simp_all add: execInv_def startExecution_def stopExecution_def)
qed

lemma runActions_execInv: "execInv s \<Longrightarrow> execInv (runActions as s)"
  unfolding runActions_def
  by (induction as arbitrary: s) (simp_all add: dispatch_execInv)

text \<open>
  C10. The invariant (isExecuting is true exactly when executionId is non-null) holds in
  the initial state and in every state the store reaches; \<open>startExecution id\<close> sets
  isExecuting to true and executionId to id, \<open>stopExecution\<close> sets them to false and
  null, and every other action leaves both fields as they were.
\<close>

theorem flowStore_execution_invariant:
  fixes s :: "('w, 'n) FlowStore"
  shows
  "execInv (initialFlowStore :: ('w, 'n) FlowStore)
   \<and> execInv (runActions as (initialFlowStore :: ('w, 'n) FlowStore))
   \<and> (execInv s \<longrightarrow> execInv (dispatch a s))
   \<and> isExecuting (startExecution eid s) \<and> executionId (startExecution eid s) = Some eid
   \<and> \<not> isExecuting (stopExecution s) \<and> executionId (stopExecution s) = None
   \<and> (\<not> isExecutionAction a \<longrightarrow>
        isExecuting (dispatch a s) = isExecuting s \<and> executionId (dispatch a s) = executionId s)"
proof -
  have "execInv (runActions as (initialFlowStore :: ('w, 'n) FlowStore))"
    by (rule runActions_execInv [OF execInv_initial])
  moreover have "isExecuting (startExecution eid s) \<and> executionId (startExecution eid s) = Some eid"
    by (simp add: startExecution_def)
  moreover have "\<not> isExecuting (stopExecution s) \<and> executionId (stopExecution s) = None"
    by (simp add: stopExecution_def)
  ultimately show ?thesis
    using execInv_initial dispatch_execInv [of s a] dispatch_frame [of a s] by blast
qed

theorem flowStore_execution_invariant_witness:
  "execInv (dispatch (StartExecution ''exec-1'') (initialFlowStore :: (unit, unit) FlowStore))
   \<and> isExecuting (dispatch ToggleSidebar
        (dispatch (StartExecution ''exec-1'') (initialFlowStore :: (unit, unit) FlowStore)))
   \<and> executionId (dispatch ToggleSidebar
        (dispatch (StartExecution ''exec-1'') (initialFlowStore :: (unit, unit) FlowStore)))
      = Some ''exec-1''
   \<and> execInv (runActions [StartExecution ''exec-1'', SetDesignGoal ''g'', StopExecution]
        (initialFlowStore :: (unit, unit) FlowStore))"
proof -
  let ?s0 = "initialFlowStore :: (unit, unit) FlowStore"
  let ?s1 = "dispatch (StartExecution ''exec-1'') ?s0"
  have a: "execInv ?s1"
    using flowStore_execution_invariant [of "[]" ?s0 "StartExecution ''exec-1''" "''x''"]
    by simp
  have b: "isExecuting (dispatch ToggleSidebar ?s1) = isExecuting ?s1
           \<and> executionId (dispatch ToggleSidebar ?s1) = executionId ?s1"
    using flowStore_execution_invariant [of "[]" ?s1 ToggleSidebar "''x''"]
    by simp
  have c: "isExecuting ?s1 \<and> executionId ?s1 = Some ''exec-1''"
    using flowStore_execution_invariant [of "[]" ?s0 ToggleSidebar "''exec-1''"]
    by simp
  have d: "execInv (runActions [StartExecution ''exec-1'', SetDesignGoal ''g'', StopExecution] ?s0)"
    using flowStore_execution_invariant
      [of "[StartExecution ''exec-1'', SetDesignGoal ''g'', StopExecution]" ?s0 ToggleSidebar "''x''"]
    by simp
  from a b c d show ?thesis by simp
qed

section \<open>validateTestResult is a shallow match on the listed keys\<close>

lemma checkOutputs_True_iff:
  "(checkOutputs vars es = Inr True) =
     (\<forall>(k, v) \<in> set es. \<exists>obj. vars = Some obj \<and> strictEq (getProp obj k) v)"
proof (induction es)
  case Nil
  show ?case by simp
next
  case (Cons e es)
  obtain k v where e: "e = (k, v)" by (cases e)
  show ?case
  proof (cases vars)
    case None
    then show ?thesis by (auto simp: e)
  next
    case (Some obj)
    with Cons show ?thesis by (simp add: e Let_def)
  qed
qed

lemma checkOutputs_cong:
  "\<forall>k \<in> fst ` set es. obj k = obj' k \<Longrightarrow>
     checkOutputs (Some obj) es = checkOutputs (Some obj') es"
proof (induction es)
  case Nil
  show ?case by simp
next
  case (Cons e es)
  obtain k v where e: "e = (k, v)" by (cases e)
  from Cons.prems have "obj k = obj' k" by (simp add: e)
  moreover from Cons have "checkOutputs (Some obj) es = checkOutputs (Some obj') es" by simp
  ultimately show ?case by (simp add: e getProp_def)
qed

text \<open>
  C9. \<open>validateTestResult\<close> returns true exactly when the expected status is strictly
  equal to the result's status and, for every entry (k, v) of \<open>expected_outputs\<close>,
  \<open>variables[k] === v\<close>. Variables under keys that \<open>expected_outputs\<close> does not list do
  not change the result, and two objects are equal only when they are the same reference
  (the function never looks inside an object).
\<close>

theorem validateTestResult_shallow_match:
  "(validateTestResult tc sr = Inr True) =
     (strictEq (JStr (expected_status tc)) (sr_status sr)
      \<and> (\<forall>(k, v) \<in> set (expected_outputs tc).
            \<exists>obj. sr_variables sr = Some obj \<and> strictEq (getProp obj k) v))
   \<and> ((\<forall>k \<in> fst ` set (expected_outputs tc). obj1 k = obj2 k) \<longrightarrow>
        validateTestResult tc (sr\<lparr>sr_variables := Some obj1\<rparr>)
          = validateTestResult tc (sr\<lparr>sr_variables := Some obj2\<rparr>))
   \<and> strictEq (JRef p) (JRef q) = (p = q)"
proof -
  have "(validateTestResult tc sr = Inr True) =
     (strictEq (JStr (expected_status tc)) (sr_status sr)
      \<and> (\<forall>(k, v) \<in> set (expected_outputs tc).
            \<exists>obj. sr_variables sr = Some obj \<and> strictEq (getProp obj k) v))"
    by (simp add: validateTestResult_def checkOutputs_True_iff)
  moreover have "(\<forall>k \<in> fst ` set (expected_outputs tc). obj1 k = obj2 k) \<longrightarrow>
        validateTestResult tc (sr\<lparr>sr_variables := Some obj1\<rparr>)
          = validateTestResult tc (sr\<lparr>sr_variables := Some obj2\<rparr>)"
    using checkOutputs_cong [of "expected_outputs tc" obj1 obj2]
    by (simp add: validateTestResult_def)
  moreover have "strictEq (JRef p) (JRef q) = (p = q)"
    by (simp add: strictEq_def)
  ultimately show ?thesis by blast
qed

theorem validateTestResult_shallow_match_witness:
  "validateTestResult
       \<lparr> tc_id = ''test_1'', tc_name = ''t'', tc_description = [], initial_variables = [],
         expected_outputs = [(''total'', JNum 3)], expected_status = ''completed'',
         timeout_seconds = 30, enabled = True \<rparr>
       \<lparr> sr_status = JStr ''completed'',
         sr_variables = Some [''total'' \<mapsto> JNum 3, ''extra'' \<mapsto> JStr ''x''] \<rparr> = Inr True
   \<and> validateTestResult
       \<lparr> tc_id = ''test_2'', tc_name = ''t'', tc_description = [], initial_variables = [],
         expected_outputs = [(''user'', JRef 1)], expected_status = ''completed'',
         timeout_seconds = 30, enabled = True \<rparr>
       \<lparr> sr_status = JStr ''completed'', sr_variables = Some [''user'' \<mapsto> JRef 2] \<rparr>
     \<noteq> Inr True"
proof -
  let ?tc = "\<lparr> tc_id = ''test_1'', tc_name = ''t'', tc_description = [], initial_variables = [],
         expected_outputs = [(''total'', JNum 3)], expected_status = ''completed'',
         timeout_seconds = 30, enabled = True \<rparr>"
  let ?sr = "\<lparr> sr_status = JStr ''completed'',
         sr_variables = Some [''total'' \<mapsto> JNum 3, ''extra'' \<mapsto> JStr ''x''] \<rparr>"
  let ?tc2 = "\<lparr> tc_id = ''test_2'', tc_name = ''t'', tc_description = [], initial_variables = [],
         expected_outputs = [(''user'', JRef 1)], expected_status = ''completed'',
         timeout_seconds = 30, enabled = True \<rparr>"
  let ?sr2 = "\<lparr> sr_status = JStr ''completed'', sr_variables = Some [''user'' \<mapsto> JRef 2] \<rparr>"
  have a: "validateTestResult ?tc ?sr = Inr True"
    using validateTestResult_shallow_match [of ?tc ?sr Map.empty Map.empty 0 0]
    by (simp add: strictEq_def getProp_def)
  have b: "validateTestResult ?tc2 ?sr2 \<noteq> Inr True"
    using validateTestResult_shallow_match [of ?tc2 ?sr2 Map.empty Map.empty 1 2]
    by (simp add: strictEq_def getProp_def)
  from a b show ?thesis by simp
qed

section \<open>The run statuses the SDK admits\<close>

lemma parseRunStatus_literal: "parseRunStatus s = Some st \<Longrightarrow> RunStatus_literal st = s"
  by (auto simp: parseRunStatus_def split: if_splits)

lemma zRunStatus_Some:
  "zRunStatus v = Some st \<Longrightarrow> v = Some (JsonString (RunStatus_literal st))"
  by (cases v rule: zRunStatus.cases) (auto dest: parseRunStatus_literal)

lemma WorkflowRunSchema_status:
  "WorkflowRunSchema j = Some run \<Longrightarrow>
     \<exists>kvs. j = JsonObject kvs \<and> zRunStatus (map_of kvs ''status'') = Some (status run)"
  by (cases j) (auto simp: bind_eq_Some_conv)

text \<open>
  C1, as stated, fails: \<open>waiting\<close> is one of the spec's eight run statuses, the status
  enum rejects it, and \<open>WorkflowRunSchema\<close> refuses a run record that carries it.
\<close>

theorem runStatus_waiting_counterexample:
  "''waiting'' \<in> set spec_run_statuses
   \<and> parseRunStatus ''waiting'' = None
   \<and> WorkflowRunSchema (JsonObject
        [(''id'', JsonString ''run-1''), (''workflow_id'', JsonString ''wf-1''),
         (''version'', JsonString ''1''), (''status'', JsonString ''waiting''),
         (''input_data'', JsonObject []), (''started_at'', JsonString ''2024-01-01'')]) = None"
  by (simp add: spec_run_statuses_def parseRunStatus_def)

text \<open>
  C1, amended. The status of a run at the SDK's interface is one of exactly five values:
  pending, running, completed, failed, cancelled. The status enum accepts a string exactly
  when it is one of the five, each member of \<open>RunStatus\<close> is accepted under its own
  name, a record that \<open>WorkflowRunSchema\<close> accepts carries one of the five as its status,
  and of the spec's eight statuses the enum rejects waiting, compensating and
  dead_lettered.
\<close>

theorem runStatus_exactly_five:
  "(parseRunStatus s \<noteq> None) =
     (s \<in> {''pending'', ''running'', ''completed'', ''failed'', ''cancelled''})
   \<and> parseRunStatus (RunStatus_literal st) = Some st
   \<and> (WorkflowRunSchema j = Some run \<longrightarrow>
        (\<exists>kvs. j = JsonObject kvs
           \<and> map_of kvs ''status'' = Some (JsonString (RunStatus_literal (status run))))
        \<and> RunStatus_literal (status run)
            \<in> {''pending'', ''running'', ''completed'', ''failed'', ''cancelled''})
   \<and> filter (\<lambda>x. parseRunStatus x = None) spec_run_statuses
       = [''waiting'', ''compensating'', ''dead_lettered'']"
proof -
  have a: "(parseRunStatus s \<noteq> None) =
     (s \<in> {''pending'', ''running'', ''completed'', ''failed'', ''cancelled''})"
    by (simp add: parseRunStatus_def)
  have b: "parseRunStatus (RunStatus_literal st) = Some st"
    by (cases st) (simp_all add: parseRunStatus_def)
  have c: "WorkflowRunSchema j = Some run \<longrightarrow>
        (\<exists>kvs. j = JsonObject kvs
           \<and> map_of kvs ''status'' = Some (JsonString (RunStatus_literal (status run))))
        \<and> RunStatus_literal (status run)
            \<in> {''pending'', ''running'', ''completed'', ''failed'', ''cancelled''}"
  proof
    assume "WorkflowRunSchema j = Some run"
    then obtain kvs where j: "j = JsonObject kvs"
      and z: "zRunStatus (map_of kvs ''status'') = Some (status run)"
      using WorkflowRunSchema_status by blast
    have "RunStatus_literal (status run)
            \<in> {''pending'', ''running'', ''completed'', ''failed'', ''cancelled''}"
      by (cases "status run") simp_all
    with j zRunStatus_Some [OF z] show "(\<exists>kvs. j = JsonObject kvs
           \<and> map_of kvs ''status'' = Some (JsonString (RunStatus_literal (status run))))
        \<and> RunStatus_literal (status run)
            \<in> {''pending'', ''running'', ''completed'', ''failed'', ''cancelled''}"
      by blast
  qed
  have d: "filter (\<lambda>x. parseRunStatus x = None) spec_run_statuses
       = [''waiting'', ''compensating'', ''dead_lettered'']"
    by (simp add: spec_run_statuses_def parseRunStatus_def)
  from a b c d show ?thesis by blast
qed

theorem runStatus_exactly_five_witness:
  "WorkflowRunSchema (JsonObject
        [(''id'', JsonString ''run-1''), (''workflow_id'', JsonString ''wf-1''),
         (''version'', JsonString ''1''), (''status'', JsonString ''running''),
         (''input_data'', JsonObject []), (''started_at'', JsonString ''2024-01-01'')])
     = Some \<lparr> run_id = ''run-1'', workflow_id = ''wf-1'', version = ''1'', status = Running,
              input_data = [], output_data = None, started_at = ''2024-01-01'',
              completed_at = None, error_message = None \<rparr>
   \<and> RunStatus_literal Running
       \<in> {''pending'', ''running'', ''completed'', ''failed'', ''cancelled''}"
proof -
  let ?j = "JsonObject
        [(''id'', JsonString ''run-1''), (''workflow_id'', JsonString ''wf-1''),
         (''version'', JsonString ''1''), (''status'', JsonString ''running''),
         (''input_data'', JsonObject []), (''started_at'', JsonString ''2024-01-01'')]"
  let ?run = "\<lparr> run_id = ''run-1'', workflow_id = ''wf-1'', version = ''1'', status = Running,
              input_data = [], output_data = None, started_at = ''2024-01-01'',
              completed_at = None, error_message = None \<rparr>"
  have p: "WorkflowRunSchema ?j = Some ?run"
    by (simp add: parseRunStatus_def)
  with runStatus_exactly_five [of "''running''" Running ?j ?run] show ?thesis
    by simp
qed

section \<open>The node kinds the flow builder registers\<close>

text \<open>
  C8, as stated, fails: the spec's kind \<open>parallel\<close> is not a registered node kind and
  is drawn by the default case instead of being refused, and \<open>trigger\<close>, a member of
  the SDK's \<open>StepType\<close>, is not one of the spec's nine kinds.
\<close>

theorem stepKinds_parallel_counterexample:
  "''parallel'' \<in> set spec_step_kinds
   \<and> ''parallel'' \<notin> set nodeTypes
   \<and> map_of iconMap ''parallel'' = None
   \<and> nodeIcon ''parallel'' = Settings
   \<and> ''trigger'' \<in> set StepType_values
   \<and> ''trigger'' \<notin> set spec_step_kinds"
  by (simp add: spec_step_kinds_def nodeTypes_def iconMap_def nodeIcon_def StepType_values_def)

text \<open>
  C8, amended. The flow builder registers exactly seven node kinds: start, webhook,
  connector, transform, condition, delay, end. The palette, the icon map and the colour
  map each have exactly these seven. Of the spec's nine kinds, parallel and approval are
  not registered; \<open>CustomNode\<close> draws them with the default icon and colour. The SDK's
  \<open>StepType\<close> is another set of nine names, which shares delay, parallel and approval
  with the spec's.
\<close>

theorem nodeKinds_exactly_seven:
  "set nodeTypes
     = {''start'', ''webhook'', ''connector'', ''transform'', ''condition'', ''delay'', ''end''}
   \<and> distinct nodeTypes
   \<and> set paletteTypes = set nodeTypes
   \<and> set (map fst iconMap) = set nodeTypes
   \<and> set (map fst colorMap) = set nodeTypes
   \<and> filter (\<lambda>k. k \<notin> set nodeTypes) spec_step_kinds = [''parallel'', ''approval'']
   \<and> nodeIcon ''parallel'' = Settings \<and> nodeColorClass ''parallel'' = ''bg-gray-500''
   \<and> nodeIcon ''approval'' = Settings \<and> nodeColorClass ''approval'' = ''bg-gray-500''
   \<and> filter (\<lambda>k. k \<in> set StepType_values) spec_step_kinds
       = [''delay'', ''parallel'', ''approval'']"
proof -
  have a: "set nodeTypes
     = {''start'', ''webhook'', ''connector'', ''transform'', ''condition'', ''delay'', ''end''}"
    by (auto simp: nodeTypes_def)
  have b: "distinct nodeTypes"
    by (simp add: nodeTypes_def)
  have c: "set paletteTypes = set nodeTypes"
    by (auto simp: nodeTypes_def paletteTypes_def nodeCategories_def)
  have d: "set (map fst iconMap) = set nodeTypes"
    by (auto simp: nodeTypes_def iconMap_def)
  have e: "set (map fst colorMap) = set nodeTypes"
    by (auto simp: nodeTypes_def colorMap_def)
  have f: "filter (\<lambda>k. k \<notin> set nodeTypes) spec_step_kinds = [''parallel'', ''approval'']"
    by (simp add: nodeTypes_def spec_step_kinds_def)
  have g: "nodeIcon ''parallel'' = Settings \<and> nodeColorClass ''parallel'' = ''bg-gray-500''
   \<and> nodeIcon ''approval'' = Settings \<and> nodeColorClass ''approval'' = ''bg-gray-500''"
    by (simp add: nodeIcon_def nodeColorClass_def iconMap_def colorMap_def)
  have h: "filter (\<lambda>k. k \<in> set StepType_values) spec_step_kinds
       = [''delay'', ''parallel'', ''approval'']"
    by (simp add: StepType_values_def spec_step_kinds_def)
  from a b c d e f g h show ?thesis by blast
qed

section \<open>The shapes of the simulated and the live run record\<close>

text \<open>
  C2, as stated, fails on the declared shapes: \<open>execution_path\<close> is a field of the
  simulated run record and not of the live one, so the two differ by more than a
  \<open>mock_data_used\<close> marker.
\<close>

theorem simulation_live_shape_counterexample:
  "''execution_path'' \<in> set (fieldNames SimulationResult_fields)
   \<and> ''execution_path'' \<notin> set (fieldNames WorkflowRun_fields)
   \<and> set (fieldNames SimulationResult_fields) - {''mock_data_used''}
       \<noteq> set (fieldNames WorkflowRun_fields)"
proof -
  have a: "''execution_path'' \<in> set (fieldNames SimulationResult_fields)"
    by (simp add: fieldNames_def SimulationResult_fields_def)
  have b: "''execution_path'' \<notin> set (fieldNames WorkflowRun_fields)"
    by (simp add: fieldNames_def WorkflowRun_fields_def)
  from a have "''execution_path'' \<in> set (fieldNames SimulationResult_fields) - {''mock_data_used''}"
    by simp
  with a b show ?thesis by blast
qed

text \<open>
  C2, amended. The simulated run record (\<open>SimulationResult\<close>) and the live run record
  (\<open>WorkflowRun\<close>) are different shapes that share only the fields workflow_id and
  status; the other eleven fields of the first and seven fields of the second have no
  counterpart. \<open>mock_data_used\<close> is a required field of every simulated step record
  (\<open>SimulationStep\<close>) and a field of neither run record.
\<close>

theorem simulation_live_shapes:
  "filter (\<lambda>f. f \<in> set (fieldNames WorkflowRun_fields)) (fieldNames SimulationResult_fields)
     = [''workflow_id'', ''status'']
   \<and> filter (\<lambda>f. f \<notin> set (fieldNames WorkflowRun_fields)) (fieldNames SimulationResult_fields)
     = [''simulation_id'', ''workflow_name'', ''start_time'', ''end_time'', ''duration_ms'',
        ''steps'', ''variables'', ''mock_data_config'', ''validation_errors'',
        ''execution_path'', ''performance_metrics'']
   \<and> filter (\<lambda>f. f \<notin> set (fieldNames SimulationResult_fields)) (fieldNames WorkflowRun_fields)
     = [''id'', ''version'', ''input_data'', ''output_data'', ''started_at'', ''completed_at'',
        ''error_message'']
   \<and> (''mock_data_used'', TRecordAny, False) \<in> set SimulationStep_fields
   \<and> ''mock_data_used'' \<notin> set (fieldNames SimulationResult_fields)
   \<and> ''mock_data_used'' \<notin> set (fieldNames WorkflowRun_fields)"
proof -
  have a: "filter (\<lambda>f. f \<in> set (fieldNames WorkflowRun_fields)) (fieldNames SimulationResult_fields)
     = [''workflow_id'', ''status'']"
    by (simp add: fieldNames_def WorkflowRun_fields_def SimulationResult_fields_def)
  have b: "filter (\<lambda>f. f \<notin> set (fieldNames WorkflowRun_fields)) (fieldNames SimulationResult_fields)
     = [''simulation_id'', ''workflow_name'', ''start_time'', ''end_time'', ''duration_ms'',
        ''steps'', ''variables'', ''mock_data_config'', ''validation_errors'',
        ''execution_path'', ''performance_metrics'']"
    by (simp add: fieldNames_def WorkflowRun_fields_def SimulationResult_fields_def)
  have c: "filter (\<lambda>f. f \<notin> set (fieldNames SimulationResult_fields)) (fieldNames WorkflowRun_fields)
     = [''id'', ''version'', ''input_data'', ''output_data'', ''started_at'', ''completed_at'',
        ''error_message'']"
    by (simp add: fieldNames_def WorkflowRun_fields_def SimulationResult_fields_def)
  have d: "(''mock_data_used'', TRecordAny, False) \<in> set SimulationStep_fields"
    by (simp add: SimulationStep_fields_def)
  have e: "''mock_data_used'' \<notin> set (fieldNames SimulationResult_fields)"
    by (simp add: fieldNames_def SimulationResult_fields_def)
  have f: "''mock_data_used'' \<notin> set (fieldNames WorkflowRun_fields)"
    by (simp add: fieldNames_def WorkflowRun_fields_def)
  from a b c d e f show ?thesis by blast
qed

section \<open>The Variable Store reads explicitly and keeps its keys unique\<close>

lemma store_get_absent:
  "name \<notin> set (map fst st) \<Longrightarrow> store_get st name = Inl (NotFoundError name)"
  by (induction st) auto

lemma store_get_present:
  "name \<in> set (map fst st) \<Longrightarrow> \<exists>v. store_get st name = Inr v \<and> (name, v) \<in> set st"
proof (induction st)
  case Nil
  then show ?case by simp
next
  case (Cons e st)
  obtain k w where e: "e = (k, w)" by (cases e)
  show ?case
  proof (cases "k = name")
    case True
    then show ?thesis by (simp add: e)
  next
    case False
    with Cons.prems have "name \<in> set (map fst st)" by (simp add: e)
    from Cons.IH [OF this] False show ?thesis by (auto simp: e)
  qed
qed

lemma store_get_distinct:
  "distinct (map fst st) \<Longrightarrow> (name, v) \<in> set st \<Longrightarrow> store_get st name = Inr v"
proof (induction st)
  case Nil
  then show ?case by simp
next
  case (Cons e st)
  obtain k w where e: "e = (k, w)" by (cases e)
  show ?case
  proof (cases "k = name")
    case True
    with Cons.prems have "name \<notin> set (map fst st)" by (simp add: e)
    then have "(name, v) \<notin> set st" by (metis fst_conv image_eqI set_map)
    with Cons.prems True show ?thesis by (simp add: e)
  next
    case False
    with Cons show ?thesis by (simp add: e)
  qed
qed

lemma store_get_set_same: "store_get (store_set name v st) name = Inr v"
  by (induction st) auto

lemma store_get_set_other:
  "other \<noteq> name \<Longrightarrow> store_get (store_set name v st) other = store_get st other"
  by (induction st) auto

lemma store_set_map_fst:
  "map fst (store_set name v st)
     = (if name \<in> set (map fst st) then map fst st else map fst st @ [name])"
proof (induction st)
  case Nil
  show ?case by simp
next
  case (Cons e st)
  obtain k w where e: "e = (k, w)" by (cases e)
  from Cons show ?case by (simp add: e)
qed

text \<open>
  C7. A read of a name the store holds returns a value stored under it (the value, when
  keys are unique); a read of a name it does not hold fails with NotFoundError and
  returns no default. After \<open>set name v\<close> the name reads as v, every other name reads
  as before, the keys are the old keys and the name, and unique keys stay unique.
\<close>

theorem variableStore_get_set:
  "(name \<in> set (map fst st) \<longrightarrow> (\<exists>w. store_get st name = Inr w \<and> (name, w) \<in> set st))
   \<and> (distinct (map fst st) \<and> (name, w) \<in> set st \<longrightarrow> store_get st name = Inr w)
   \<and> (name \<notin> set (map fst st) \<longrightarrow> store_get st name = Inl (NotFoundError name))
   \<and> store_get (store_set name v st) name = Inr v
   \<and> (other \<noteq> name \<longrightarrow> store_get (store_set name v st) other = store_get st other)
   \<and> set (map fst (store_set name v st)) = insert name (set (map fst st))
   \<and> (distinct (map fst st) \<longrightarrow> distinct (map fst (store_set name v st)))"
proof -
  have keys: "set (map fst (store_set name v st)) = insert name (set (map fst st))"
    by (simp only: store_set_map_fst) (simp add: insert_absorb)
  have dist: "distinct (map fst st) \<longrightarrow> distinct (map fst (store_set name v st))"
    by (simp only: store_set_map_fst) simp
  from keys dist show ?thesis
    using store_get_present [of name st] store_get_distinct [of st name w]
      store_get_absent [of name st] store_get_set_same [of name v st]
      store_get_set_other [of other name v st]
    by blast
qed

theorem variableStore_get_set_witness:
  "store_get [(''email'', JsonString ''a@b.c''), (''count'', JsonNumber 2)] ''count''
     = Inr (JsonNumber 2)
   \<and> store_get [(''email'', JsonString ''a@b.c''), (''count'', JsonNumber 2)] ''total''
     = Inl (NotFoundError ''total'')
   \<and> store_get (store_set ''count'' (JsonNumber 3)
        [(''email'', JsonString ''a@b.c''), (''count'', JsonNumber 2)]) ''email''
     = Inr (JsonString ''a@b.c'')
   \<and> distinct (map fst (store_set ''count'' (JsonNumber 3)
        [(''email'', JsonString ''a@b.c''), (''count'', JsonNumber 2)]))"
proof -
  let ?st = "[(''email'', JsonString ''a@b.c''), (''count'', JsonNumber 2)]"
  have a: "store_get ?st ''count'' = Inr (JsonNumber 2)"
    using variableStore_get_set [of "''count''" ?st "JsonNumber 2" JsonNull "''count''"]
    by simp
  have b: "store_get ?st ''total'' = Inl (NotFoundError ''total'')"
    using variableStore_get_set [of "''total''" ?st JsonNull JsonNull "''total''"]
    by simp
  have c: "store_get (store_set ''count'' (JsonNumber 3) ?st) ''email'' = Inr (JsonString ''a@b.c'')"
    using variableStore_get_set [of "''count''" ?st "JsonNumber 2" "JsonNumber 3" "''email''"]
    by simp
  have d: "distinct (map fst (store_set ''count'' (JsonNumber 3) ?st))"
    using variableStore_get_set [of "''count''" ?st "JsonNumber 2" "JsonNumber 3" "''email''"]
    by simp
  from a b c d show ?thesis by simp
qed

section \<open>appendStepResult stores one result per key\<close>

lemma appendStepResult_has_key:
  "(runId, step_id r, attempt r) \<in> set (map resultKey (appendStepResult runId r results))"
  by (simp add: appendStepResult_def resultKey_def)

lemma appendStepResult_same_key:
  "step_id r' = step_id r \<Longrightarrow> attempt r' = attempt r \<Longrightarrow>
   appendStepResult runId r' (appendStepResult runId r results) = appendStepResult runId r results"
  using appendStepResult_has_key [of runId r results]
  by (simp add: appendStepResult_def [of runId r'])

lemma appendStepResult_distinct:
  "distinct (map resultKey results) \<Longrightarrow>
     distinct (map resultKey (appendStepResult runId r results))"
  by (auto simp add: appendStepResult_def resultKey_def)

lemma distinct_key_count:
  "distinct (map f xs) \<Longrightarrow> k \<in> set (map f xs) \<Longrightarrow> length (filter (\<lambda>e. f e = k) xs) = 1"
proof (induction xs)
  case Nil
  then show ?case by simp
next
  case (Cons x xs)
  show ?case
  proof (cases "f x = k")
    case True
    with Cons.prems have "k \<notin> f ` set xs" by simp
    then have "\<forall>e \<in> set xs. f e \<noteq> k" by blast
    then have "filter (\<lambda>e. f e = k) xs = []" by (simp add: filter_empty_conv)
    with True show ?thesis by simp
  next
    case False
    with Cons show ?thesis by auto
  qed
qed

text \<open>
  C6. Replaying \<open>appendStepResult\<close> with the same (runId, stepId, attempt) key, with
  the same result or with another result of that key, leaves the stored results as the
  first call left them; results stored under distinct keys stay so, and exactly one
  result is then stored under the key.
\<close>

theorem appendStepResult_idempotent:
  "appendStepResult runId r (appendStepResult runId r results) = appendStepResult runId r results
   \<and> (step_id r' = step_id r \<and> attempt r' = attempt r \<longrightarrow>
        appendStepResult runId r' (appendStepResult runId r results)
          = appendStepResult runId r results)
   \<and> (distinct (map resultKey results) \<longrightarrow>
        distinct (map resultKey (appendStepResult runId r (appendStepResult runId r results)))
        \<and> length (filter (\<lambda>e. resultKey e = (runId, step_id r, attempt r))
             (appendStepResult runId r (appendStepResult runId r results))) = 1)"
proof -
  have twice: "appendStepResult runId r (appendStepResult runId r results)
      = appendStepResult runId r results"
    by (rule appendStepResult_same_key) simp_all
  have count: "distinct (map resultKey results) \<longrightarrow>
        distinct (map resultKey (appendStepResult runId r results))
        \<and> length (filter (\<lambda>e. resultKey e = (runId, step_id r, attempt r))
             (appendStepResult runId r results)) = 1"
    using appendStepResult_distinct [of results runId r]
      distinct_key_count [of resultKey "appendStepResult runId r results" "(runId, step_id r, attempt r)"]
      appendStepResult_has_key [of runId r results]
    by blast
  from twice count show ?thesis
    using appendStepResult_same_key [of r' r runId results] by simp
qed

theorem appendStepResult_idempotent_witness:
  "appendStepResult ''run-1''
       \<lparr> step_id = ''B'', step_status = StepCompleted, attempt = 1, inputs = [], outputs = [],
         step_error = None, start_ts = 10, end_ts = Some 12, duration = Some 2 \<rparr>
       (appendStepResult ''run-1''
          \<lparr> step_id = ''B'', step_status = StepRunning, attempt = 1, inputs = [], outputs = [],
            step_error = None, start_ts = 10, end_ts = None, duration = None \<rparr> [])
     = [(''run-1'',
          \<lparr> step_id = ''B'', step_status = StepRunning, attempt = 1, inputs = [], outputs = [],
            step_error = None, start_ts = 10, end_ts = None, duration = None \<rparr>)]"
proof -
  let ?r = "\<lparr> step_id = ''B'', step_status = StepRunning, attempt = 1, inputs = [], outputs = [],
            step_error = None, start_ts = 10, end_ts = None, duration = None \<rparr>"
  let ?r' = "\<lparr> step_id = ''B'', step_status = StepCompleted, attempt = 1, inputs = [], outputs = [],
         step_error = None, start_ts = 10, end_ts = Some 12, duration = Some 2 \<rparr>"
  have "appendStepResult ''run-1'' ?r [] = [(''run-1'', ?r)]"
    by (simp add: appendStepResult_def)
  with appendStepResult_idempotent [of "''run-1''" ?r "[]" ?r'] show ?thesis
    by simp
qed

section \<open>A condition step takes the first matching branch\<close>

lemma firstMatch_None: "(firstMatch store bs = None) = (\<forall>b \<in> set bs. \<not> branch_when b store)"
  by (induction bs) auto

lemma firstMatch_Some:
  "(firstMatch store bs = Some i) =
     (i < length bs \<and> branch_when (bs ! i) store \<and> (\<forall>k<i. \<not> branch_when (bs ! k) store))"
proof (induction bs arbitrary: i)
  case Nil
  show ?case by simp
next
  case (Cons b bs)
  show ?case
  proof (cases "branch_when b store")
    case True
    then show ?thesis by (cases i) auto
  next
    case False
    show ?thesis
    proof (cases i)
      case 0
      with False show ?thesis by auto
    next
      case (Suc m)
      have "(\<forall>k<Suc m. \<not> branch_when ((b # bs) ! k) store)
          = (\<forall>k<m. \<not> branch_when (bs ! k) store)"
        using False by (auto simp: less_Suc_eq_0_disj)
      with False Suc Cons.IH [of m] show ?thesis by auto
    qed
  qed
qed

lemma count_marks_Some:
  "length (filter (\<lambda>m. m = EdgeTaken) (markBranches (Some i) n)) = (if i < n then 1 else 0)"
  unfolding markBranches_def by (induction n) auto

lemma count_marks_None: "filter (\<lambda>m. m = EdgeTaken) (markBranches None n) = []"
  unfolding markBranches_def by (induction n) auto

lemma executeCondition_one_taken:
  "executeCondition store step = Inr out \<Longrightarrow>
     length (filter (\<lambda>m. m = EdgeTaken) (outgoingMarks out)) = 1"
  by (auto simp: executeCondition_def outgoingMarks_def count_marks_Some count_marks_None
      firstMatch_Some split: option.splits)

lemma executeCondition_tie:
  assumes "i < j" "j < length (branches step)" "branch_when (branches step ! i) store"
    "branch_when (branches step ! j) store" "\<forall>k<i. \<not> branch_when (branches step ! k) store"
  shows "\<exists>out. executeCondition store step = Inr out
        \<and> next_step out = branch_target (branches step ! i)
        \<and> branch_marks out ! i = EdgeTaken \<and> branch_marks out ! j = EdgeSkipped"
proof -
  from assms have "firstMatch store (branches step) = Some i"
    by (simp add: firstMatch_Some)
  with assms show ?thesis
    by (simp add: executeCondition_def markBranches_def)
qed

lemma executeCondition_error:
  "(executeCondition store step = Inl e) =
     (e = ConditionError \<and> (\<forall>b \<in> set (branches step). \<not> branch_when b store)
      \<and> else_target step = None)"
  by (auto simp: executeCondition_def firstMatch_None [symmetric] split: option.splits)

text \<open>
  C5. A condition step that succeeds takes exactly one of its outgoing edges. When two
  branches match, the one declared first among the matching ones is taken and the later
  one is marked skipped. The step fails exactly when no branch matches and no else edge
  is declared, and the error is then a ConditionError.
\<close>

theorem condition_first_match_wins:
  "(executeCondition store step = Inr out \<longrightarrow>
      length (filter (\<lambda>m. m = EdgeTaken) (outgoingMarks out)) = 1)
   \<and> (i < j \<and> j < length (branches step)
        \<and> branch_when (branches step ! i) store \<and> branch_when (branches step ! j) store
        \<and> (\<forall>k<i. \<not> branch_when (branches step ! k) store) \<longrightarrow>
      (\<exists>res. executeCondition store step = Inr res
         \<and> next_step res = branch_target (branches step ! i)
         \<and> branch_marks res ! i = EdgeTaken \<and> branch_marks res ! j = EdgeSkipped))
   \<and> ((executeCondition store step = Inl e) =
        (e = ConditionError \<and> (\<forall>b \<in> set (branches step). \<not> branch_when b store)
         \<and> else_target step = None))"
  using executeCondition_one_taken [of store step out]
    executeCondition_tie [of i j step store]
    executeCondition_error [of store step e]
  by blast

theorem condition_first_match_wins_witness:
  "(\<exists>res. executeCondition (5::nat)
        \<lparr> branches = [\<lparr> branch_when = (\<lambda>s. 10 < s), branch_target = ''big'' \<rparr>,
                      \<lparr> branch_when = (\<lambda>s. 1 < s), branch_target = ''medium'' \<rparr>,
                      \<lparr> branch_when = (\<lambda>s. 0 < s), branch_target = ''small'' \<rparr>],
          else_target = None \<rparr> = Inr res
      \<and> next_step res = ''medium''
      \<and> branch_marks res ! 1 = EdgeTaken \<and> branch_marks res ! 2 = EdgeSkipped)
   \<and> executeCondition (0::nat)
        \<lparr> branches = [\<lparr> branch_when = (\<lambda>s. 10 < s), branch_target = ''big'' \<rparr>,
                      \<lparr> branch_when = (\<lambda>s. 1 < s), branch_target = ''medium'' \<rparr>,
                      \<lparr> branch_when = (\<lambda>s. 0 < s), branch_target = ''small'' \<rparr>],
          else_target = None \<rparr> = Inl ConditionError"
proof -
  let ?step = "\<lparr> branches = [\<lparr> branch_when = (\<lambda>s::nat. 10 < s), branch_target = ''big'' \<rparr>,
                      \<lparr> branch_when = (\<lambda>s. 1 < s), branch_target = ''medium'' \<rparr>,
                      \<lparr> branch_when = (\<lambda>s. 0 < s), branch_target = ''small'' \<rparr>],
          else_target = None \<rparr>"
  have a: "\<exists>res. executeCondition (5::nat) ?step = Inr res
      \<and> next_step res = ''medium''
      \<and> branch_marks res ! 1 = EdgeTaken \<and> branch_marks res ! 2 = EdgeSkipped"
    using condition_first_match_wins [of 5 ?step undefined 1 2 ConditionError]
    by simp
  have b: "executeCondition (0::nat) ?step = Inl ConditionError"
    using condition_first_match_wins [of 0 ?step undefined 1 2 ConditionError]
    by simp
  from a b show ?thesis by blast
qed

section \<open>The retry delay is exponential in the attempt\<close>

text \<open>
  C4. For an attempt n of at least 1, \<open>nextDelay\<close> without jitter is
  base * multiplier^(n-1); with jitter, for a policy whose base delay and multiplier are
  not negative and a random draw of [0, 1], it lies between that delay and twice that
  delay. With base 100 ms and multiplier 2, attempts 1, 2 and 3 wait 100, 200 and 400 ms.
\<close>

theorem nextDelay_exponential:
  "(1 \<le> n \<and> \<not> jitter p \<longrightarrow> nextDelay u n p = base_delay p * multiplier p ^ (n - 1))
   \<and> (1 \<le> n \<and> jitter p \<and> 0 \<le> base_delay p \<and> 0 \<le> multiplier p \<and> 0 \<le> u \<and> u \<le> 1 \<longrightarrow>
        base_delay p * multiplier p ^ (n - 1) \<le> nextDelay u n p
        \<and> nextDelay u n p \<le> 2 * (base_delay p * multiplier p ^ (n - 1)))
   \<and> map (\<lambda>k. nextDelay u k \<lparr> max_attempts = 3, base_delay = 100, multiplier = 2,
                               jitter = False, retryable = [] \<rparr>) [1, 2, 3]
       = [100, 200, 400]"
proof -
  let ?d = "base_delay p * multiplier p ^ (n - 1)"
  have plain: "\<not> jitter p \<longrightarrow> nextDelay u n p = ?d"
    by (simp add: nextDelay_def)
  have jit: "jitter p \<and> 0 \<le> base_delay p \<and> 0 \<le> multiplier p \<and> 0 \<le> u \<and> u \<le> 1 \<longrightarrow>
        ?d \<le> nextDelay u n p \<and> nextDelay u n p \<le> 2 * ?d"
  proof
    assume h: "jitter p \<and> 0 \<le> base_delay p \<and> 0 \<le> multiplier p \<and> 0 \<le> u \<and> u \<le> 1"
    then have d: "0 \<le> ?d" by simp
    with h have lo: "0 \<le> u * ?d" by simp
    from h d have hi: "u * ?d \<le> 1 * ?d" by (intro mult_right_mono) auto
    from h lo hi show "?d \<le> nextDelay u n p \<and> nextDelay u n p \<le> 2 * ?d"
      by (simp add: nextDelay_def Let_def)
  qed
  have ex: "map (\<lambda>k. nextDelay u k \<lparr> max_attempts = 3, base_delay = 100, multiplier = 2,
                               jitter = False, retryable = [] \<rparr>) [1, 2, 3]
       = [100, 200, 400]"
    by (simp add: nextDelay_def)
  from plain jit ex show ?thesis by blast
qed

theorem nextDelay_exponential_witness:
  "nextDelay 0 3 \<lparr> max_attempts = 3, base_delay = 100, multiplier = 2, jitter = False,
                   retryable = [] \<rparr> = 400
   \<and> 400 \<le> nextDelay (1 / 2) 3 \<lparr> max_attempts = 3, base_delay = 100, multiplier = 2,
                   jitter = True, retryable = [] \<rparr>
   \<and> nextDelay (1 / 2) 3 \<lparr> max_attempts = 3, base_delay = 100, multiplier = 2,
                   jitter = True, retryable = [] \<rparr> \<le> 800"
proof -
  have a: "nextDelay 0 3 \<lparr> max_attempts = 3, base_delay = 100, multiplier = 2, jitter = False,
                   retryable = [] \<rparr> = 400"
    using nextDelay_exponential [of 3 "\<lparr> max_attempts = 3, base_delay = 100, multiplier = 2,
      jitter = False, retryable = [] \<rparr>" 0]
    by simp
  have b: "400 \<le> nextDelay (1 / 2) 3 \<lparr> max_attempts = 3, base_delay = 100, multiplier = 2,
                   jitter = True, retryable = [] \<rparr>
   \<and> nextDelay (1 / 2) 3 \<lparr> max_attempts = 3, base_delay = 100, multiplier = 2,
                   jitter = True, retryable = [] \<rparr> \<le> 800"
    using nextDelay_exponential [of 3 "\<lparr> max_attempts = 3, base_delay = 100, multiplier = 2,
      jitter = True, retryable = [] \<rparr>" "1 / 2"]
    by simp
  from a b show ?thesis by simp
qed

end
